theory Spec2Isabelle
  imports Main
begin

section \<open>Python values held in the cells of a DataFrame\<close>

text \<open>
  A cell of the DataFrame that \<^verbatim>\<open>pd.read_csv\<close> returns holds a string, an
  integer, a boolean, a float or a missing value. \<open>PNone\<close> is Python's \<^verbatim>\<open>None\<close>,
  \<open>PNaN\<close> the float NaN that pandas uses for an empty CSV field. A finite float is the
  pair of a mantissa and a binary exponent (\<open>PFloat m e\<close> is \<open>m * 2 ^ e\<close>); the two
  zeros are not told apart and the infinities are left out. Text is a list of 8-bit
  characters, read as the code points 0 to 255.
\<close>

datatype pyval =
    PNone
  | PNaN
  | PStr string
  | PInt int
  | PBool bool
  | PFloat int int

text \<open>\<^verbatim>\<open>pd.notnull(x)\<close>: false for \<^verbatim>\<open>None\<close> and NaN, true for every other value.\<close>

fun notnull :: "pyval \<Rightarrow> bool" where
  "notnull PNone = False"
| "notnull PNaN = False"
| "notnull _ = True"

text \<open>
  Python's truth value, used by \<^verbatim>\<open>x or ''\<close>, \<^verbatim>\<open>if limit:\<close> and
  \<^verbatim>\<open>not os.getenv(v)\<close>: \<^verbatim>\<open>None\<close>, the empty string, zero and \<^verbatim>\<open>False\<close> are
  false; NaN is a non-zero float and so is true.
\<close>

fun truthy :: "pyval \<Rightarrow> bool" where
  "truthy PNone = False"
| "truthy PNaN = True"
| "truthy (PStr s) = (s \<noteq> [])"
| "truthy (PInt n) = (n \<noteq> 0)"
| "truthy (PBool b) = b"
| "truthy (PFloat m e) = (m \<noteq> 0)"

text \<open>\<^verbatim>\<open>a or b\<close> evaluates to \<open>a\<close> when \<open>a\<close> is true and to \<open>b\<close> otherwise.\<close>

definition py_or :: "pyval \<Rightarrow> pyval \<Rightarrow> pyval" where
  "py_or a b = (if truthy a then a else b)"

subsection \<open>Whitespace and \<^verbatim>\<open>str.strip\<close>\<close>

text \<open>
  \<^verbatim>\<open>str.isspace\<close> on the code points below 256: the ASCII controls 9 to 13 and
  28 to 31, the space, NEL (133) and the no-break space (160).
\<close>

definition isspace :: "char \<Rightarrow> bool" where
  "isspace c =
     (let n = (of_char c :: nat)
      in (9 \<le> n \<and> n \<le> 13) \<or> (28 \<le> n \<and> n \<le> 32) \<or> n = 133 \<or> n = 160)"

text \<open>\<^verbatim>\<open>s.strip()\<close> removes the leading and the trailing whitespace of \<open>s\<close>.\<close>

definition lstrip :: "string \<Rightarrow> string" where
  "lstrip s = dropWhile isspace s"

definition rstrip :: "string \<Rightarrow> string" where
  "rstrip s = rev (dropWhile isspace (rev s))"

definition strip :: "string \<Rightarrow> string" where
  "strip s = rstrip (lstrip s)"

subsection \<open>\<^verbatim>\<open>str(x)\<close>\<close>

definition digit_char :: "nat \<Rightarrow> char" where
  "digit_char d = char_of (48 + d)"

fun str_nat :: "nat \<Rightarrow> string" where
  "str_nat n = (if n < 10 then [digit_char n] else str_nat (n div 10) @ [digit_char (n mod 10)])"

definition str_int :: "int \<Rightarrow> string" where
  "str_int i = (if i < 0 then CHR ''-'' # str_nat (nat (- i)) else str_nat (nat i))"

text \<open>
  \<^verbatim>\<open>str(x)\<close>. The text of a finite float is Python's shortest round-trip
  representation; it is not computed here but taken as the parameter \<open>float_repr\<close>.
\<close>

fun py_str :: "(int \<Rightarrow> int \<Rightarrow> string) \<Rightarrow> pyval \<Rightarrow> string" where
  "py_str float_repr PNone = ''None''"
| "py_str float_repr PNaN = ''nan''"
| "py_str float_repr (PStr s) = s"
| "py_str float_repr (PInt n) = str_int n"
| "py_str float_repr (PBool b) = (if b then ''True'' else ''False'')"
| "py_str float_repr (PFloat m e) = float_repr m e"

section \<open>DataFrames\<close>

text \<open>
  A DataFrame is a row count (the length of its index) and a list of labelled columns,
  each with a dtype and its values. \<^verbatim>\<open>read_csv\<close> gives every column a distinct label
  and as many values as the frame has rows (\<open>wf_df\<close>).
\<close>

datatype dtype = Object | Int64 | Float64 | Bool

record series =
  sname :: string
  sdtype :: dtype
  svalues :: "pyval list"

record dataframe =
  nrows :: nat
  cols :: "series list"

definition wf_df :: "dataframe \<Rightarrow> bool" where
  "wf_df df = list_all (\<lambda>c. length (svalues c) = nrows df) (cols df)"

definition columns :: "dataframe \<Rightarrow> string list" where
  "columns df = map sname (cols df)"

text \<open>\<^verbatim>\<open>df[col]\<close>: the column labelled \<open>col\<close>.\<close>

definition get_col :: "dataframe \<Rightarrow> string \<Rightarrow> series option" where
  "get_col df col = find (\<lambda>c. sname c = col) (cols df)"

text \<open>\<^verbatim>\<open>df[col] = s\<close>: the values and dtype of \<open>s\<close> replace those of the column labelled \<open>col\<close>.\<close>

definition set_col :: "dataframe \<Rightarrow> string \<Rightarrow> series \<Rightarrow> dataframe" where
  "set_col df col s =
     df\<lparr>cols := map (\<lambda>c. if sname c = col then c\<lparr>sdtype := sdtype s, svalues := svalues s\<rparr> else c)
                    (cols df)\<rparr>"

text \<open>
  \<^verbatim>\<open>df.head(n)\<close>: the first \<open>n\<close> rows; for a negative \<open>n\<close>, all rows but the
  last \<open>-n\<close>.
\<close>

definition head :: "dataframe \<Rightarrow> int \<Rightarrow> dataframe" where
  "head df n =
     (let k = (if 0 \<le> n then nat n else nrows df - nat (- n))
      in df\<lparr>nrows := min k (nrows df),
            cols := map (\<lambda>c. c\<lparr>svalues := take k (svalues c)\<rparr>) (cols df)\<rparr>)"

text \<open>\<^verbatim>\<open>df.iloc[start:stop]\<close> for indices that are not negative.\<close>

definition iloc :: "dataframe \<Rightarrow> nat \<Rightarrow> nat \<Rightarrow> dataframe" where
  "iloc df start stop =
     df\<lparr>nrows := min stop (nrows df) - start,
        cols := map (\<lambda>c. c\<lparr>svalues := take (stop - start) (drop start (svalues c))\<rparr>) (cols df)\<rparr>"

text \<open>
  \<^verbatim>\<open>df.iterrows()\<close>: the rows in index order, each the list of its labelled values.
  The frames of this pipeline have text columns, so a row is an object Series and
  every value keeps the type it has in its column.
\<close>

type_synonym row = "(string \<times> pyval) list"

definition row_at :: "dataframe \<Rightarrow> nat \<Rightarrow> row" where
  "row_at df i = map (\<lambda>c. (sname c, svalues c ! i)) (cols df)"

definition iterrows :: "dataframe \<Rightarrow> row list" where
  "iterrows df = map (row_at df) [0..<nrows df]"

text \<open>\<^verbatim>\<open>row.get(key, default)\<close>.\<close>

definition row_get :: "row \<Rightarrow> string \<Rightarrow> pyval \<Rightarrow> pyval" where
  "row_get r key dflt = (case map_of r key of None \<Rightarrow> dflt | Some v \<Rightarrow> v)"

section \<open>The clean stage\<close>

text \<open>
  \<^verbatim>\<open>df.where(pd.notnull(df), None)\<close>: a value that is not null is kept. In an object
  column a null value becomes \<^verbatim>\<open>None\<close>; in a numeric column pandas (from 1.3 on)
  casts the replacement \<^verbatim>\<open>None\<close> to the column's own missing value NaN, and the
  dtype stays.
\<close>

definition where_notnull_None :: "dataframe \<Rightarrow> dataframe" where
  "where_notnull_None df =
     df\<lparr>cols := map (\<lambda>c. c\<lparr>svalues :=
                       map (\<lambda>v. if notnull v then v else if sdtype c = Object then PNone else PNaN)
                         (svalues c)\<rparr>)
                    (cols df)\<rparr>"

text \<open>\<^verbatim>\<open>df.select_dtypes(include=['object']).columns\<close>\<close>

definition select_object_columns :: "dataframe \<Rightarrow> string list" where
  "select_object_columns df = map sname (filter (\<lambda>c. sdtype c = Object) (cols df))"

text \<open>\<^verbatim>\<open>lambda x: x.strip() if isinstance(x, str) else x\<close>\<close>

fun strip_if_str :: "pyval \<Rightarrow> pyval" where
  "strip_if_str (PStr s) = PStr (strip s)"
| "strip_if_str v = v"

text \<open>\<^verbatim>\<open>s.apply(f)\<close> on a column of strings and \<^verbatim>\<open>None\<close>: \<open>f\<close> on every value.\<close>

definition apply_series :: "(pyval \<Rightarrow> pyval) \<Rightarrow> series \<Rightarrow> series" where
  "apply_series f s = s\<lparr>svalues := map f (svalues s)\<rparr>"

text \<open>
  The body of the loop over the object columns:
  \<^verbatim>\<open>if df[col].dtype == 'object': df[col] = df[col].apply(...)\<close>
\<close>

definition strip_column :: "string \<Rightarrow> dataframe \<Rightarrow> dataframe" where
  "strip_column col df =
     (case get_col df col of
        None \<Rightarrow> df
      | Some s \<Rightarrow> if sdtype s = Object then set_col df col (apply_series strip_if_str s) else df)"

definition clean_data :: "dataframe \<Rightarrow> dataframe" where
  "clean_data df =
     (let df1 = where_notnull_None df
      in fold strip_column (select_object_columns df1) df1)"

text \<open>
  What the stage does to one value of a column of dtype \<open>d\<close>, and to one column:
  the two steps of \<open>clean_data\<close> composed. \<open>clean_data_cols\<close> below proves that
  \<open>clean_data\<close> is \<open>clean_column\<close> on every column.
\<close>

definition clean_value :: "dtype \<Rightarrow> pyval \<Rightarrow> pyval" where
  "clean_value d v =
     (if d = Object then strip_if_str (if notnull v then v else PNone)
      else if notnull v then v else PNaN)"

definition clean_column :: "series \<Rightarrow> series" where
  "clean_column c = c\<lparr>svalues := map (clean_value (sdtype c)) (svalues c)\<rparr>"

definition clean_row :: "dtype list \<Rightarrow> row \<Rightarrow> row" where
  "clean_row ds r = map (\<lambda>(d, (n, v)). (n, clean_value d v)) (zip ds r)"

section \<open>The session: the warehouse connection, its cursor and the log\<close>

datatype exn = RequestException | ParserError | DatabaseError | ValueError

datatype level = INFO | ERROR

text \<open>
  A log record carries the values the source interpolates into its message; the
  formatting of numbers and the wall-clock duration are not modelled.
\<close>

datatype message =
    Rule
  | Step1 | Url "string option" | Limiting int | Downloaded nat | Columns "string list"
  | DownloadError exn
  | Step2 | Cleaned nat
  | Step3 | Clearing | Progress nat nat | Loaded nat
  | Step4 | TotalRecords nat | TopTowns | TownLine string nat
  | PipelineTitle | PipelineCompleted | Duration | RecordsProcessed nat
  | PipelineFailed | ErrorLine exn

text \<open>The calls the pipeline makes on the cursor and the connection.\<close>

datatype db_call =
    Truncate
  | InsertMany "string list list"
  | SelectCount
  | SelectTopTowns
  | Commit

text \<open>
  \<open>calls\<close> are the statements issued so far, in order, and \<open>table\<close> the rows of
  \<^verbatim>\<open>CT_REAL_ESTATE.BRONZE.raw_sales\<close> as the session sees them.
\<close>

record session =
  data_url :: "string option"
  cursor_closed :: bool
  conn_closed :: bool
  calls :: "db_call list"
  table :: "string list list"
  log :: "(level \<times> message) list"

text \<open>
  What lies outside the program: the outcome of the HTTP request and of parsing its
  body, which of the database calls raise (by their position in the sequence of calls),
  and the warehouse's answer to the grouped query of the verify stage.
\<close>

record env =
  http_response :: "exn + dataframe"
  db_raises :: "nat \<Rightarrow> exn option"
  top_towns :: "string list list \<Rightarrow> (string \<times> nat) list"

definition logger :: "level \<Rightarrow> message list \<Rightarrow> session \<Rightarrow> session" where
  "logger lv ms s = s\<lparr>log := log s @ map (\<lambda>m. (lv, m)) ms\<rparr>"

fun effect :: "db_call \<Rightarrow> string list list \<Rightarrow> string list list" where
  "effect Truncate t = []"
| "effect (InsertMany rows) t = t @ rows"
| "effect _ t = t"

text \<open>One call on the cursor or the connection: it raises, or it takes effect.\<close>

definition db_exec :: "env \<Rightarrow> db_call \<Rightarrow> session \<Rightarrow> (exn + unit) \<times> session" where
  "db_exec e c s =
     (let s' = s\<lparr>calls := calls s @ [c]\<rparr>
      in case db_raises e (length (calls s)) of
           Some x \<Rightarrow> (Inl x, s')
         | None \<Rightarrow> (Inr (), s'\<lparr>table := effect c (table s)\<rparr>))"

section \<open>The download stage\<close>

text \<open>
  The row limit is \<^verbatim>\<open>None\<close> (the default) or an integer, and \<^verbatim>\<open>if limit:\<close>
  tests its truth value.
\<close>

definition download_data :: "env \<Rightarrow> int option \<Rightarrow> session \<Rightarrow> (exn + dataframe) \<times> session" where
  "download_data e limit s =
     (let s0 = logger INFO [Rule, Step1, Url (data_url s)] s
      in case http_response e of
           Inl x \<Rightarrow> (Inl x, logger ERROR [DownloadError x] s0)
         | Inr df0 \<Rightarrow>
             (let (df, s1) =
                    (case limit of
                       None \<Rightarrow> (df0, s0)
                     | Some n \<Rightarrow>
                         if truthy (PInt n)
                         then (head df0 n, logger INFO [Limiting n] s0)
                         else (df0, s0))
              in (Inr df, logger INFO [Downloaded (nrows df), Columns (columns df)] s1)))"

text \<open>The clean stage with its log records.\<close>

definition clean_data_logged :: "dataframe \<Rightarrow> session \<Rightarrow> dataframe \<times> session" where
  "clean_data_logged df s =
     (let s0 = logger INFO [Rule, Step2] s;
          df' = clean_data df
      in (df', logger INFO [Cleaned (nrows df')] s0))"

section \<open>The load stage\<close>

text \<open>The labels read from each row, in the order of the insert tuple.\<close>

definition csv_fields :: "string list" where
  "csv_fields =
     [''Serial Number'', ''List Year'', ''Date Recorded'', ''Town'', ''Address'',
      ''Assessed Value'', ''Sale Amount'', ''Sales Ratio'', ''Property Type'',
      ''Residential Type'', ''Non Use Code'', ''Assessor Remarks'', ''OPM remarks'',
      ''Location'']"

text \<open>The columns of the insert statement, in its order.\<close>

definition insert_columns :: "string list" where
  "insert_columns =
     [''serial_number'', ''list_year'', ''date_recorded'', ''town'', ''address'',
      ''assessed_value'', ''sale_amount'', ''sales_ratio'', ''property_type'',
      ''residential_type'', ''non_use_code'', ''assessor_remarks'', ''opm_remarks'',
      ''location'']"

text \<open>\<^verbatim>\<open>str(row.get(field, '') or '')\<close>\<close>

definition field_text :: "(int \<Rightarrow> int \<Rightarrow> string) \<Rightarrow> row \<Rightarrow> string \<Rightarrow> string" where
  "field_text float_repr r field = py_str float_repr (py_or (row_get r field (PStr [])) (PStr []))"

definition value_tuple :: "(int \<Rightarrow> int \<Rightarrow> string) \<Rightarrow> row \<Rightarrow> string list" where
  "value_tuple float_repr r = map (field_text float_repr r) csv_fields"

text \<open>\<^verbatim>\<open>range(start, stop, step)\<close> for a positive step.\<close>

function py_range :: "nat \<Rightarrow> nat \<Rightarrow> nat \<Rightarrow> nat list" where
  "py_range start stop step =
     (if step = 0 \<or> stop \<le> start then [] else start # py_range (start + step) stop step)"
  by pat_completeness auto
termination
  by (relation "measure (\<lambda>(start, stop, step). stop - start)") auto

text \<open>
  The body of the loop over the start indices: slice the batch, build its tuples,
  send them in one \<^verbatim>\<open>executemany\<close>, count them and log the progress. An insert
  that raises ends the loop.
\<close>

fun load_batches ::
  "env \<Rightarrow> (int \<Rightarrow> int \<Rightarrow> string) \<Rightarrow> dataframe \<Rightarrow> nat \<Rightarrow> nat \<Rightarrow> nat list \<Rightarrow> nat \<Rightarrow> session
   \<Rightarrow> (exn + nat) \<times> session" where
  "load_batches e float_repr df total_rows batch_size [] inserted_count s = (Inr inserted_count, s)"
| "load_batches e float_repr df total_rows batch_size (start_idx # rest) inserted_count s =
     (let end_idx = min (start_idx + batch_size) total_rows;
          batch = iloc df start_idx end_idx;
          vals = map (value_tuple float_repr) (iterrows batch)
      in case db_exec e (InsertMany vals) s of
           (Inl x, s1) \<Rightarrow> (Inl x, s1)
         | (Inr u, s1) \<Rightarrow>
             load_batches e float_repr df total_rows batch_size rest
               (inserted_count + length vals)
               (logger INFO [Progress end_idx total_rows] s1))"

text \<open>
  \<^verbatim>\<open>range(0, total_rows, batch_size)\<close>: a zero step raises \<^verbatim>\<open>ValueError\<close>, a
  negative one gives the empty range.
\<close>

definition load_to_bronze ::
  "env \<Rightarrow> (int \<Rightarrow> int \<Rightarrow> string) \<Rightarrow> dataframe \<Rightarrow> int \<Rightarrow> session \<Rightarrow> (exn + unit) \<times> session" where
  "load_to_bronze e float_repr df batch_size s =
     (let s0 = logger INFO [Rule, Step3, Clearing] s
      in case db_exec e Truncate s0 of
           (Inl x, s1) \<Rightarrow> (Inl x, s1)
         | (Inr u, s1) \<Rightarrow>
             (let total_rows = nrows df
              in if batch_size = 0 then (Inl ValueError, s1)
                 else
                   (case load_batches e float_repr df total_rows (nat batch_size)
                           (if batch_size < 0 then [] else py_range 0 total_rows (nat batch_size))
                           0 s1 of
                      (Inl x, s2) \<Rightarrow> (Inl x, s2)
                    | (Inr inserted_count, s2) \<Rightarrow>
                        (case db_exec e Commit s2 of
                           (Inl x, s3) \<Rightarrow> (Inl x, s3)
                         | (Inr u, s3) \<Rightarrow> (Inr (), logger INFO [Loaded inserted_count] s3)))))"

text \<open>
  The slices the loop takes, in order: \<^verbatim>\<open>df.iloc[start_idx:end_idx]\<close> for every
  \<open>start_idx\<close> of the range.
\<close>

definition batches :: "dataframe \<Rightarrow> nat \<Rightarrow> dataframe list" where
  "batches df batch_size =
     map (\<lambda>start_idx. iloc df start_idx (min (start_idx + batch_size) (nrows df)))
       (py_range 0 (nrows df) batch_size)"

section \<open>The verify stage\<close>

definition verify_load :: "env \<Rightarrow> session \<Rightarrow> (exn + unit) \<times> session" where
  "verify_load e s =
     (let s0 = logger INFO [Rule, Step4] s
      in case db_exec e SelectCount s0 of
           (Inl x, s1) \<Rightarrow> (Inl x, s1)
         | (Inr u, s1) \<Rightarrow>
             (let count = length (table s1)
              in case db_exec e SelectTopTowns s1 of
                   (Inl x, s2) \<Rightarrow> (Inl x, s2)
                 | (Inr u, s2) \<Rightarrow>
                     (let towns = top_towns e (table s2)
                      in (Inr (),
                          logger INFO
                            ([TotalRecords count, TopTowns] @ map (\<lambda>(t, n). TownLine t n) towns)
                            s2))))"

section \<open>The pipeline orchestrator\<close>

text \<open>The body of the \<^verbatim>\<open>try\<close> block: the four stages in order, then the summary.\<close>

definition pipeline_body ::
  "env \<Rightarrow> (int \<Rightarrow> int \<Rightarrow> string) \<Rightarrow> int option \<Rightarrow> session \<Rightarrow> (exn + unit) \<times> session" where
  "pipeline_body e float_repr limit s =
     (let s0 = logger INFO [Rule, PipelineTitle, Rule] s
      in case download_data e limit s0 of
           (Inl x, s1) \<Rightarrow> (Inl x, s1)
         | (Inr df0, s1) \<Rightarrow>
             (let (df, s2) = clean_data_logged df0 s1
              in case load_to_bronze e float_repr df 5000 s2 of
                   (Inl x, s3) \<Rightarrow> (Inl x, s3)
                 | (Inr u, s3) \<Rightarrow>
                     (case verify_load e s3 of
                        (Inl x, s4) \<Rightarrow> (Inl x, s4)
                      | (Inr u, s4) \<Rightarrow>
                          (Inr (),
                           logger INFO
                             [Rule, PipelineCompleted, Duration, RecordsProcessed (nrows df), Rule]
                             s4))))"

text \<open>
  \<^verbatim>\<open>try: ... except Exception: (log the banner); raise  finally: close both\<close>.
  The two \<^verbatim>\<open>close\<close> calls are taken not to raise.
\<close>

definition failure_banner :: "exn \<Rightarrow> message list" where
  "failure_banner x = [Rule, PipelineFailed, ErrorLine x, Rule]"

definition run_pipeline ::
  "env \<Rightarrow> (int \<Rightarrow> int \<Rightarrow> string) \<Rightarrow> int option \<Rightarrow> session \<Rightarrow> (exn + unit) \<times> session" where
  "run_pipeline e float_repr limit s =
     (let (r, s1) = pipeline_body e float_repr limit s;
          s2 = (case r of Inl x \<Rightarrow> logger ERROR (failure_banner x) s1 | Inr u \<Rightarrow> s1);
          s3 = s2\<lparr>cursor_closed := True\<rparr>;
          s4 = s3\<lparr>conn_closed := True\<rparr>
      in (r, s4))"

section \<open>The connectivity check\<close>

definition required_vars :: "string list" where
  "required_vars =
     [''SNOWFLAKE_ACCOUNT'', ''SNOWFLAKE_USER'', ''SNOWFLAKE_PASSWORD'',
      ''SNOWFLAKE_WAREHOUSE'', ''SNOWFLAKE_DATABASE'']"

text \<open>\<^verbatim>\<open>os.getenv(v)\<close>: the value of \<open>v\<close>, or \<^verbatim>\<open>None\<close> when it is not set.\<close>

definition getenv :: "(string \<Rightarrow> string option) \<Rightarrow> string \<Rightarrow> pyval" where
  "getenv environ v = (case environ v of None \<Rightarrow> PNone | Some x \<Rightarrow> PStr x)"

text \<open>\<^verbatim>\<open>sep.join(xs)\<close>\<close>

fun join :: "string \<Rightarrow> string list \<Rightarrow> string" where
  "join sep [] = []"
| "join sep [x] = x"
| "join sep (x # y # ys) = x @ sep @ join sep (y # ys)"

text \<open>\<^verbatim>\<open>[v for v in required_vars if not os.getenv(v)]\<close>\<close>

definition missing :: "(string \<Rightarrow> string option) \<Rightarrow> string list" where
  "missing environ = filter (\<lambda>v. \<not> truthy (getenv environ v)) required_vars"

text \<open>The lines the script prints; a line that shows a value carries its text.\<close>

datatype line =
    Title
  | VarLine string string
  | MissingHeader
  | MissingNames string
  | FixHint
  | Connecting
  | ConnectionSuccessful
  | VersionLine string
  | DatabaseLine string
  | UserLine string
  | ConnectionFailed
  | ErrorIs exn
  | PossibleIssues

record connect_args =
  account :: pyval
  user :: pyval
  password :: pyval
  warehouse :: pyval
  database :: pyval
  schema :: pyval
  role :: pyval

text \<open>
  A run of the script: what it printed, the calls of \<^verbatim>\<open>snowflake.connector.connect\<close>
  it made, and its exit status when it ended in \<^verbatim>\<open>exit(1)\<close>.
\<close>

record run =
  printed :: "line list"
  connects :: "connect_args list"
  exit_status :: "nat option"

definition var_line :: "(string \<Rightarrow> string option) \<Rightarrow> string \<Rightarrow> line" where
  "var_line environ var =
     (let v = getenv environ var
      in if var = ''SNOWFLAKE_PASSWORD''
         then VarLine var (if truthy v then replicate 10 (CHR ''*'') else ''NOT SET'')
         else VarLine var (py_str (\<lambda>m e. []) v))"

text \<open>
  \<open>session_outcome\<close> is what the connection attempt and the identity query come to:
  an exception, or the row (version, database, user) that \<^verbatim>\<open>fetchone\<close> returns.
\<close>

definition test_connection ::
  "(string \<Rightarrow> string option) \<Rightarrow> (exn + string \<times> string \<times> string) \<Rightarrow> run" where
  "test_connection environ session_outcome =
     (let out0 = Title # map (var_line environ) required_vars;
          ms = missing environ
      in if ms \<noteq> []
         then \<lparr>printed = out0 @ [MissingHeader, MissingNames (join '', '' ms), FixHint],
               connects = [], exit_status = Some 1\<rparr>
         else
           (let args = \<lparr>account = getenv environ ''SNOWFLAKE_ACCOUNT'',
                         user = getenv environ ''SNOWFLAKE_USER'',
                         password = getenv environ ''SNOWFLAKE_PASSWORD'',
                         warehouse = getenv environ ''SNOWFLAKE_WAREHOUSE'',
                         database = getenv environ ''SNOWFLAKE_DATABASE'',
                         schema = py_or (getenv environ ''SNOWFLAKE_SCHEMA'') (PStr ''PUBLIC''),
                         role = py_or (getenv environ ''SNOWFLAKE_ROLE'') PNone\<rparr>;
                 out1 = out0 @ [Connecting]
            in case session_outcome of
                 Inr (ver, db, usr) \<Rightarrow>
                   \<lparr>printed = out1 @ [ConnectionSuccessful, VersionLine ver, DatabaseLine db,
                                        UserLine usr],
                     connects = [args], exit_status = None\<rparr>
               | Inl x \<Rightarrow>
                   \<lparr>printed = out1 @ [ConnectionFailed, ErrorIs x, PossibleIssues],
                     connects = [args], exit_status = None\<rparr>))"

section \<open>Notions used in the proofs\<close>

text \<open>
  The first step of \<open>clean_data\<close> on one column, and the loop body on one column: for
  the label \<open>col\<close>, and for any label of the set \<open>N\<close>.
\<close>

definition where_col :: "series \<Rightarrow> series" where
  "where_col c = c\<lparr>svalues :=
      map (\<lambda>v. if notnull v then v else if sdtype c = Object then PNone else PNaN) (svalues c)\<rparr>"

definition strip_if :: "string \<Rightarrow> series \<Rightarrow> series" where
  "strip_if col c = (if sname c = col \<and> sdtype c = Object then apply_series strip_if_str c else c)"

definition strip_in :: "string set \<Rightarrow> series \<Rightarrow> series" where
  "strip_in N c = (if sname c \<in> N \<and> sdtype c = Object then apply_series strip_if_str c else c)"

text \<open>The \<^verbatim>\<open>executemany\<close> call that sends the batch \<open>x\<close>.\<close>

definition insert_of :: "(int \<Rightarrow> int \<Rightarrow> string) \<Rightarrow> dataframe \<Rightarrow> db_call" where
  "insert_of float_repr x = InsertMany (map (value_tuple float_repr) (iterrows x))"

section \<open>Example data\<close>

text \<open>
  Three sales as \<^verbatim>\<open>read_csv\<close> delivers them: a town with trailing spaces, an
  empty town (NaN), a town of spaces only, and a sale amount of zero.
\<close>

definition sales_frame :: dataframe where
  "sales_frame =
     \<lparr>nrows = 3,
      cols =
        [\<lparr>sname = ''Serial Number'', sdtype = Int64, svalues = [PInt 2020348, PInt 20002, PInt 210317]\<rparr>,
         \<lparr>sname = ''Town'', sdtype = Object, svalues = [PStr ''Hartford  '', PNaN, PStr ''  '']\<rparr>,
         \<lparr>sname = ''Sale Amount'', sdtype = Int64, svalues = [PInt 325000, PInt 0, PInt 430000]\<rparr>]\<rparr>"

text \<open>An environment that serves \<open>df\<close> and a warehouse that accepts every call.\<close>

definition quiet_env :: "dataframe \<Rightarrow> env" where
  "quiet_env df = \<lparr>http_response = Inr df, db_raises = (\<lambda>k. None), top_towns = (\<lambda>t. [])\<rparr>"

text \<open>An environment whose download fails.\<close>

definition offline_env :: env where
  "offline_env = \<lparr>http_response = Inl RequestException, db_raises = (\<lambda>k. None), top_towns = (\<lambda>t. [])\<rparr>"

text \<open>A warehouse that rejects the first call it gets.\<close>

definition rejecting_env :: env where
  "rejecting_env =
     \<lparr>http_response = Inr sales_frame,
      db_raises = (\<lambda>k. if k = 0 then Some DatabaseError else None),
      top_towns = (\<lambda>t. [])\<rparr>"

definition fresh_session :: session where
  "fresh_session = \<lparr>data_url = Some ''https://data.ct.gov/sales.csv'', cursor_closed = False,
      conn_closed = False, calls = [], table = [], log = []\<rparr>"

text \<open>A float text for frames that hold no finite float.\<close>

definition no_floats :: "int \<Rightarrow> int \<Rightarrow> string" where
  "no_floats m e = []"

text \<open>An environment with every required value but the password, and one whose password is empty.\<close>

definition no_password :: "string \<Rightarrow> string option" where
  "no_password =
     [''SNOWFLAKE_ACCOUNT'' \<mapsto> ''acme-xy12345'', ''SNOWFLAKE_USER'' \<mapsto> ''etl'',
      ''SNOWFLAKE_WAREHOUSE'' \<mapsto> ''COMPUTE_WH'', ''SNOWFLAKE_DATABASE'' \<mapsto> ''CT_REAL_ESTATE'']"

definition empty_password :: "string \<Rightarrow> string option" where
  "empty_password = no_password(''SNOWFLAKE_PASSWORD'' \<mapsto> [])"

section \<open>Properties of \<^verbatim>\<open>strip\<close>\<close>

lemma lstrip_fix: "s = [] \<or> \<not> isspace (hd s) \<Longrightarrow> lstrip s = s"
  by (cases s) (auto simp: lstrip_def)

lemma rstrip_fix: "s = [] \<or> \<not> isspace (last s) \<Longrightarrow> rstrip s = s"
  by (cases s rule: rev_cases) (auto simp: rstrip_def)

lemma lstrip_hd: "lstrip s = [] \<or> \<not> isspace (hd (lstrip s))"
  unfolding lstrip_def by (metis hd_dropWhile)

lemma rstrip_last: "rstrip s = [] \<or> \<not> isspace (last (rstrip s))"
  unfolding rstrip_def
  by (metis hd_dropWhile last_rev rev_is_Nil_conv)

lemma rstrip_keeps_hd: "s \<noteq> [] \<Longrightarrow> \<not> isspace (hd s) \<Longrightarrow> rstrip s \<noteq> [] \<and> hd (rstrip s) = hd s"
  by (metis dropWhile_eq_Nil_conv dropWhile_last hd_rev list.set_sel(1)
    rev.simps(1) rev_rev_ident rstrip_def set_rev)

lemma rstrip_Nil: "rstrip [] = []"
  by (simp add: rstrip_def)

lemma strip_ends: "strip s = [] \<or> (\<not> isspace (hd (strip s)) \<and> \<not> isspace (last (strip s)))"
proof (cases "lstrip s = []")
  case True
  then show ?thesis by (simp add: strip_def rstrip_Nil)
next
  case False
  with lstrip_hd [of s] have h: "\<not> isspace (hd (lstrip s))" by simp
  from rstrip_keeps_hd [OF False h] rstrip_last [of "lstrip s"] h
  show ?thesis by (simp add: strip_def)
qed

lemma strip_idem: "strip (strip s) = strip s"
proof -
  have "lstrip (strip s) = strip s"
    using strip_ends [of s] by (intro lstrip_fix) auto
  moreover have "rstrip (strip s) = strip s"
    using strip_ends [of s] by (intro rstrip_fix) auto
  ultimately show ?thesis by (simp add: strip_def [of "strip s"])
qed

lemma strip_if_str_idem: "strip_if_str (strip_if_str v) = strip_if_str v"
  by (cases v) (simp_all add: strip_idem)

section \<open>The clean stage, column by column\<close>

lemma get_col_None: "get_col df col = None \<Longrightarrow> \<forall>c \<in> set (cols df). sname c \<noteq> col"
  by (auto simp: get_col_def find_None_iff)

lemma get_col_Some:
  "get_col df col = Some s \<Longrightarrow> s \<in> set (cols df) \<and> sname s = col"
  by (auto simp: get_col_def find_Some_iff)

lemma distinct_sname_eq:
  "distinct (map sname cs) \<Longrightarrow> c \<in> set cs \<Longrightarrow> s \<in> set cs \<Longrightarrow> sname c = sname s \<Longrightarrow> c = s"
  by (meson distinct_map inj_on_def)

lemma strip_column_cols:
  assumes "distinct (columns df)"
  shows "strip_column col df = df\<lparr>cols := map (strip_if col) (cols df)\<rparr>"
proof (cases "get_col df col")
  case None
  then have "map (strip_if col) (cols df) = cols df"
    by (intro map_idI) (auto simp: strip_if_def dest: get_col_None)
  with None show ?thesis by (simp add: strip_column_def)
next
  case (Some s)
  then have s: "s \<in> set (cols df)" "sname s = col" by (auto dest: get_col_Some)
  have eq: "\<And>c. c \<in> set (cols df) \<Longrightarrow> sname c = col \<Longrightarrow> c = s"
    using assms s distinct_sname_eq unfolding columns_def by metis
  show ?thesis
  proof (cases "sdtype s = Object")
    case True
    have "map (\<lambda>c. if sname c = col then c\<lparr>sdtype := sdtype (apply_series strip_if_str s),
              svalues := svalues (apply_series strip_if_str s)\<rparr> else c) (cols df)
          = map (strip_if col) (cols df)"
      using eq True by (intro map_cong) (auto simp: strip_if_def apply_series_def)
    with Some True show ?thesis by (simp add: strip_column_def set_col_def)
  next
    case False
    have "map (strip_if col) (cols df) = cols df"
      using eq False by (intro map_idI) (auto simp: strip_if_def)
    with Some False show ?thesis by (simp add: strip_column_def)
  qed
qed

lemma sname_strip_if: "sname (strip_if col c) = sname c"
  by (simp add: strip_if_def apply_series_def)

lemma strip_in_strip_if: "strip_in N (strip_if col c) = strip_in (insert col N) c"
  by (auto simp: strip_in_def strip_if_def apply_series_def strip_if_str_idem)

lemma fold_strip_column:
  "distinct (columns df) \<Longrightarrow>
   fold strip_column ns df = df\<lparr>cols := map (strip_in (set ns)) (cols df)\<rparr>"
proof (induction ns arbitrary: df)
  case Nil
  have "map (strip_in {}) (cols df) = cols df"
    by (intro map_idI) (simp add: strip_in_def)
  then show ?case by simp
next
  case (Cons n ns)
  let ?d = "df\<lparr>cols := map (strip_if n) (cols df)\<rparr>"
  have d: "distinct (columns ?d)"
    using Cons.prems by (simp add: columns_def comp_def sname_strip_if)
  have "fold strip_column (n # ns) df = fold strip_column ns ?d"
    by (simp add: strip_column_cols [OF Cons.prems])
  also have "\<dots> = ?d\<lparr>cols := map (strip_in (set ns)) (cols ?d)\<rparr>"
    by (rule Cons.IH [OF d])
  also have "\<dots> = df\<lparr>cols := map (strip_in (set (n # ns))) (cols df)\<rparr>"
    by (simp add: strip_in_strip_if comp_def)
  finally show ?case .
qed

lemma where_notnull_None_cols: "where_notnull_None df = df\<lparr>cols := map where_col (cols df)\<rparr>"
  by (simp add: where_notnull_None_def where_col_def)

lemma strip_in_where_col:
  assumes "sdtype c = Object \<Longrightarrow> sname c \<in> N"
  shows "strip_in N (where_col c) = clean_column c"
  using assms
  by (cases "sdtype c = Object")
     (simp_all add: strip_in_def where_col_def clean_column_def clean_value_def apply_series_def)

lemma select_object_columns_where:
  assumes "c \<in> set (cols df)" and "sdtype c = Object"
  shows "sname c \<in> set (select_object_columns (where_notnull_None df))"
proof -
  have "where_col c \<in> set (filter (\<lambda>c. sdtype c = Object) (cols (where_notnull_None df)))"
    using assms by (simp add: where_notnull_None_cols where_col_def)
  then have "sname (where_col c) \<in> set (select_object_columns (where_notnull_None df))"
    unfolding select_object_columns_def by (simp only: set_map image_eqI)
  then show ?thesis by (simp add: where_col_def)
qed

lemma clean_data_cols:
  assumes "distinct (columns df)"
  shows "clean_data df = df\<lparr>cols := map clean_column (cols df)\<rparr>"
proof -
  let ?w = "where_notnull_None df"
  let ?N = "set (select_object_columns ?w)"
  have d: "distinct (columns ?w)"
    using assms by (simp add: columns_def where_notnull_None_cols comp_def where_col_def)
  have "clean_data df = ?w\<lparr>cols := map (strip_in ?N) (cols ?w)\<rparr>"
    by (simp add: clean_data_def Let_def fold_strip_column [OF d])
  also have "\<dots> = df\<lparr>cols := map (\<lambda>c. strip_in ?N (where_col c)) (cols df)\<rparr>"
    by (simp add: where_notnull_None_cols comp_def)
  also have "map (\<lambda>c. strip_in ?N (where_col c)) (cols df) = map clean_column (cols df)"
    by (intro map_cong refl strip_in_where_col select_object_columns_where)
  finally show ?thesis .
qed

lemma clean_value_idem: "clean_value d (clean_value d v) = clean_value d v"
  by (cases v) (auto simp: clean_value_def strip_idem)

lemma clean_column_idem: "clean_column (clean_column c) = clean_column c"
  by (simp add: clean_column_def clean_value_idem)

lemma columns_clean_data: "distinct (columns df) \<Longrightarrow> columns (clean_data df) = columns df"
  by (simp add: clean_data_cols columns_def clean_column_def comp_def)

lemma nrows_clean_data: "distinct (columns df) \<Longrightarrow> nrows (clean_data df) = nrows df"
  by (simp add: clean_data_cols)

lemma row_at_clean:
  assumes "wf_df df" and "i < nrows df"
  shows "row_at (df\<lparr>cols := map clean_column (cols df)\<rparr>) i
         = clean_row (map sdtype (cols df)) (row_at df i)"
proof -
  have "\<And>c. c \<in> set (cols df) \<Longrightarrow> i < length (svalues c)"
    using assms by (simp add: wf_df_def list_all_iff)
  then show ?thesis
    by (simp add: row_at_def clean_row_def clean_column_def zip_map_map zip_same_conv_map comp_def)
qed


section \<open>Slices and ranges\<close>

lemma py_range_pos:
  "0 < step \<Longrightarrow> start < stop \<Longrightarrow>
   py_range start stop step = start # py_range (start + step) stop step"
  by simp

lemma py_range_done: "stop \<le> start \<Longrightarrow> py_range start stop step = []"
  by simp

declare py_range.simps [simp del]

lemma length_iterrows: "length (iterrows df) = nrows df"
  by (simp add: iterrows_def)

lemma nrows_iloc: "nrows (iloc df a b) = min b (nrows df) - a"
  by (simp add: iloc_def)

lemma row_at_iloc:
  assumes "wf_df df" and "i < min b (nrows df) - a"
  shows "row_at (iloc df a b) i = row_at df (a + i)"
proof -
  have "\<And>c. c \<in> set (cols df) \<Longrightarrow> take (b - a) (drop a (svalues c)) ! i = svalues c ! (a + i)"
  proof -
    fix c assume "c \<in> set (cols df)"
    with assms(1) have "length (svalues c) = nrows df"
      by (simp add: wf_df_def list_all_iff)
    with assms(2) show "take (b - a) (drop a (svalues c)) ! i = svalues c ! (a + i)"
      by simp
  qed
  then show ?thesis
    by (simp add: row_at_def iloc_def)
qed

lemma iloc_rows:
  assumes "wf_df df"
  shows "iterrows (iloc df a b) = take (b - a) (drop a (iterrows df))"
proof (rule nth_equalityI)
  show "length (iterrows (iloc df a b)) = length (take (b - a) (drop a (iterrows df)))"
    by (simp add: length_iterrows nrows_iloc)
next
  fix i assume "i < length (iterrows (iloc df a b))"
  then have i: "i < min b (nrows df) - a"
    by (simp add: length_iterrows nrows_iloc)
  then have "iterrows (iloc df a b) ! i = row_at df (a + i)"
    using row_at_iloc [OF assms i] by (simp add: iterrows_def nrows_iloc)
  moreover from i have "take (b - a) (drop a (iterrows df)) ! i = row_at df (a + i)"
    by (simp add: iterrows_def)
  ultimately show "iterrows (iloc df a b) ! i = take (b - a) (drop a (iterrows df)) ! i"
    by simp
qed

lemma concat_chunks:
  assumes "0 < b"
  shows "concat (map (\<lambda>st. take (min (st + b) n - st) (drop st xs)) (py_range s n b))
         = take (n - s) (drop s xs)"
  using assms
proof (induction s n b rule: py_range.induct)
  case (1 start stop step)
  show ?case
  proof (cases "start < stop")
    case False
    then show ?thesis by (simp add: py_range_done)
  next
    case True
    with "1.prems" have IH:
      "concat (map (\<lambda>st. take (min (st + step) stop - st) (drop st xs)) (py_range (start + step) stop step))
       = take (stop - (start + step)) (drop (start + step) xs)"
      using "1.IH" by simp
    show ?thesis
    proof (cases "start + step \<le> stop")
      case True
      have "take (stop - start) (drop start xs)
            = take step (drop start xs) @ take (stop - (start + step)) (drop (start + step) xs)"
        using True take_add [of step "stop - (start + step)" "drop start xs"]
        by (simp add: add.commute)
      with IH True \<open>start < stop\<close> "1.prems" show ?thesis
        by (simp add: py_range_pos min_def)
    next
      case False
      then have "py_range (start + step) stop step = []"
        by (simp add: py_range_done)
      with False \<open>start < stop\<close> "1.prems" show ?thesis
        by (simp add: py_range_pos min_def)
    qed
  qed
qed

lemma py_range_bounds:
  "0 < b \<Longrightarrow> st \<in> set (py_range s n b) \<Longrightarrow> s \<le> st \<and> st < n"
proof (induction s n b rule: py_range.induct)
  case (1 start stop step)
  show ?case
  proof (cases "start < stop")
    case False
    with "1.prems" show ?thesis by (simp add: py_range_done)
  next
    case True
    with "1.prems" have "st = start \<or> st \<in> set (py_range (start + step) stop step)"
      by (simp add: py_range_pos)
    then show ?thesis
    proof
      assume "st = start" with True show ?thesis by simp
    next
      assume "st \<in> set (py_range (start + step) stop step)"
      with "1.IH" "1.prems" True show ?thesis by fastforce
    qed
  qed
qed

lemma py_range_butlast:
  "0 < b \<Longrightarrow> st \<in> set (butlast (py_range s n b)) \<Longrightarrow> st + b < n"
proof (induction s n b rule: py_range.induct)
  case (1 start stop step)
  show ?case
  proof (cases "start < stop")
    case False
    with "1.prems" show ?thesis by (simp add: py_range_done)
  next
    case True
    note lt = this
    show ?thesis
    proof (cases "py_range (start + step) stop step = []")
      case True
      with "1.prems" lt show ?thesis by (simp add: py_range_pos)
    next
      case False
      then have ne: "start + step < stop"
        by (metis py_range_done not_le)
      from False "1.prems" lt
      have "st = start \<or> st \<in> set (butlast (py_range (start + step) stop step))"
        by (simp add: py_range_pos)
      then show ?thesis
      proof
        assume "st = start" with ne show ?thesis by simp
      next
        assume "st \<in> set (butlast (py_range (start + step) stop step))"
        with "1.IH" "1.prems" lt show ?thesis by fastforce
      qed
    qed
  qed
qed

lemma iterrows_batch:
  assumes "wf_df df"
  shows "map iterrows (batches df b)
         = map (\<lambda>st. take (min (st + b) (nrows df) - st) (drop st (iterrows df)))
             (py_range 0 (nrows df) b)"
  by (simp add: batches_def iloc_rows [OF assms])

lemma batches_concat:
  assumes "wf_df df" and "0 < b"
  shows "concat (map iterrows (batches df b)) = iterrows df"
  using concat_chunks [OF assms(2), of "nrows df" "iterrows df" 0]
  by (simp add: iterrows_batch [OF assms(1)] length_iterrows)

lemma batches_sizes:
  assumes "0 < b" and "x \<in> set (batches df b)"
  shows "0 < nrows x \<and> nrows x \<le> b"
proof -
  from assms(2) obtain st where st: "st \<in> set (py_range 0 (nrows df) b)"
    and x: "x = iloc df st (min (st + b) (nrows df))"
    by (auto simp: batches_def)
  from py_range_bounds [OF assms(1) st] have "st < nrows df" by simp
  with assms(1) x show ?thesis by (auto simp: nrows_iloc min_def)
qed

lemma batches_full:
  assumes "0 < b" and "x \<in> set (butlast (batches df b))"
  shows "nrows x = b"
proof -
  from assms(2) obtain st where st: "st \<in> set (butlast (py_range 0 (nrows df) b))"
    and x: "x = iloc df st (min (st + b) (nrows df))"
    by (auto simp: batches_def map_butlast [symmetric])
  from py_range_butlast [OF assms(1) st] have "st + b < nrows df" .
  with x show ?thesis by (simp add: nrows_iloc min_def)
qed

section \<open>The load stage when the warehouse accepts every call\<close>

lemma db_exec_ok:
  "db_raises e (length (calls s)) = None \<Longrightarrow>
   db_exec e c s = (Inr (), s\<lparr>calls := calls s @ [c], table := effect c (table s)\<rparr>)"
  by (simp add: db_exec_def)

lemma calls_logger: "calls (logger lv ms s) = calls s"
  by (simp add: logger_def)

lemma table_logger: "table (logger lv ms s) = table s"
  by (simp add: logger_def)

lemma load_batches_ok:
  assumes "\<forall>k. db_raises e k = None"
  shows "\<exists>s'. load_batches e fr df tot b starts n s = (Inr (n + sum_list (map (\<lambda>st. nrows (iloc df st (min (st + b) tot))) starts)), s')
      \<and> calls s' = calls s @ map (\<lambda>st. insert_of fr (iloc df st (min (st + b) tot))) starts
      \<and> table s' = table s @ concat (map (\<lambda>st. map (value_tuple fr) (iterrows (iloc df st (min (st + b) tot)))) starts)"
proof (induction starts arbitrary: n s)
  case Nil
  show ?case by simp
next
  case (Cons st starts)
  let ?x = "iloc df st (min (st + b) tot)"
  let ?s1 = "logger INFO [Progress (min (st + b) tot) tot]
       (s\<lparr>calls := calls s @ [insert_of fr ?x],
          table := table s @ map (value_tuple fr) (iterrows ?x)\<rparr>)"
  have step: "load_batches e fr df tot b (st # starts) n s
     = load_batches e fr df tot b starts (n + nrows ?x) ?s1"
    using assms by (simp add: Let_def db_exec_ok insert_of_def length_iterrows)
  from Cons.IH [of "n + nrows ?x" ?s1] obtain s' where
    "load_batches e fr df tot b starts (n + nrows ?x) ?s1
       = (Inr (n + nrows ?x + sum_list (map (\<lambda>st. nrows (iloc df st (min (st + b) tot))) starts)), s')"
    "calls s' = calls ?s1 @ map (\<lambda>st. insert_of fr (iloc df st (min (st + b) tot))) starts"
    "table s' = table ?s1 @ concat (map (\<lambda>st. map (value_tuple fr) (iterrows (iloc df st (min (st + b) tot)))) starts)"
    by blast
  with step show ?case
    by (simp add: calls_logger table_logger add.assoc)
qed

lemma load_to_bronze_ok:
  assumes ok: "\<forall>k. db_raises e k = None" and b: "0 < b"
  shows "\<exists>s'. load_to_bronze e fr df (int b) s = (Inr (), s')
      \<and> calls s' = calls s @ Truncate # map (insert_of fr) (batches df b) @ [Commit]
      \<and> table s' = concat (map (\<lambda>x. map (value_tuple fr) (iterrows x)) (batches df b))"
proof -
  let ?s0 = "logger INFO [Rule, Step3, Clearing] s"
  let ?s1 = "?s0\<lparr>calls := calls ?s0 @ [Truncate], table := []\<rparr>"
  from load_batches_ok [OF ok, of fr df "nrows df" b "py_range 0 (nrows df) b" 0 ?s1]
  obtain s2 n where lb: "load_batches e fr df (nrows df) b (py_range 0 (nrows df) b) 0 ?s1 = (Inr n, s2)"
    and c2: "calls s2 = calls ?s1 @ map (\<lambda>st. insert_of fr (iloc df st (min (st + b) (nrows df)))) (py_range 0 (nrows df) b)"
    and t2: "table s2 = table ?s1 @ concat (map (\<lambda>st. map (value_tuple fr) (iterrows (iloc df st (min (st + b) (nrows df))))) (py_range 0 (nrows df) b))"
    by blast
  have "load_to_bronze e fr df (int b) s
        = (Inr (), logger INFO [Loaded n] (s2\<lparr>calls := calls s2 @ [Commit]\<rparr>))"
    using ok b lb by (simp add: load_to_bronze_def Let_def db_exec_ok)
  with c2 t2 show ?thesis
    by (simp add: calls_logger table_logger batches_def comp_def)
qed

section \<open>Evaluations on the example data\<close>

lemma digit_chars:
  "digit_char 0 = CHR ''0''" "digit_char 1 = CHR ''1''" "digit_char 2 = CHR ''2''"
  "digit_char 3 = CHR ''3''" "digit_char 4 = CHR ''4''" "digit_char 5 = CHR ''5''"
  "digit_char 6 = CHR ''6''" "digit_char 7 = CHR ''7''" "digit_char 8 = CHR ''8''"
  "digit_char 9 = CHR ''9''"
  by code_simp+

lemma str_nat_numeral:
  "str_nat (numeral k) =
     (if (numeral k :: nat) < 10 then [digit_char (numeral k)]
      else str_nat (numeral k div 10) @ [digit_char (numeral k mod 10)])"
  by (rule str_nat.simps)

lemma str_int_0: "str_int 0 = ''0''"
  by code_simp

lemma str_int_20002: "str_int 20002 = ''20002''"
  by (simp add: str_int_def digit_chars str_nat_numeral del: str_nat.simps)

lemma cleaned_sales_rows:
  "iterrows (clean_data sales_frame)
       = [[(''Serial Number'', PInt 2020348), (''Town'', PStr ''Hartford''), (''Sale Amount'', PInt 325000)],
          [(''Serial Number'', PInt 20002), (''Town'', PNone), (''Sale Amount'', PInt 0)],
          [(''Serial Number'', PInt 210317), (''Town'', PStr []), (''Sale Amount'', PInt 430000)]]"
  by code_simp

section \<open>The connectivity check: which names are missing\<close>

lemma missing_mem: "v \<in> set (missing environ) \<longleftrightarrow> v \<in> set required_vars \<and> \<not> truthy (getenv environ v)"
  by (simp add: missing_def)

lemma getenv_falsy: "\<not> truthy (getenv environ v) \<longleftrightarrow> environ v = None \<or> environ v = Some []"
  by (simp add: getenv_def split: option.splits)

lemma test_connection_exit:
  "missing environ \<noteq> [] \<Longrightarrow>
   test_connection environ out
     = \<lparr>printed = Title # map (var_line environ) required_vars
                   @ [MissingHeader, MissingNames (join '', '' (missing environ)), FixHint],
        connects = [], exit_status = Some 1\<rparr>"
  by (simp add: test_connection_def Let_def)

section \<open>The claims\<close>

text \<open>
  C1. For a frame whose columns all have \<open>nrows\<close> values and a batch size \<open>b > 0\<close>,
  the slices that the loop of \<open>load_to_bronze\<close> takes, concatenated in order, are the
  rows of the frame in order: none is lost, repeated or moved. Every slice has between
  1 and \<open>b\<close> rows and every slice but the last has exactly \<open>b\<close>. When the warehouse
  accepts every call, the stage sends exactly one insert per slice, in order, between
  the truncate and the commit, and the table then holds the tuple of every row.
\<close>

theorem batches_partition:
  assumes "wf_df df" and "0 < b"
  shows "concat (map iterrows (batches df b)) = iterrows df
       \<and> (\<forall>x \<in> set (batches df b). 0 < nrows x \<and> nrows x \<le> b)
       \<and> (\<forall>x \<in> set (butlast (batches df b)). nrows x = b)
       \<and> (db_raises e = (\<lambda>k. None) \<longrightarrow>
            fst (load_to_bronze e fr df (int b) s) = Inr ()
          \<and> calls (snd (load_to_bronze e fr df (int b) s))
              = calls s @ Truncate # map (insert_of fr) (batches df b) @ [Commit]
          \<and> table (snd (load_to_bronze e fr df (int b) s))
              = map (value_tuple fr) (iterrows df))"
proof -
  note c = batches_concat [OF assms]
  have t: "concat (map (\<lambda>x. map (value_tuple fr) (iterrows x)) (batches df b))
           = map (value_tuple fr) (iterrows df)"
  proof -
    have "concat (map (\<lambda>x. map (value_tuple fr) (iterrows x)) (batches df b))
          = map (value_tuple fr) (concat (map iterrows (batches df b)))"
      by (simp add: map_concat comp_def)
    with c show ?thesis by simp
  qed
  have l: "db_raises e = (\<lambda>k. None) \<longrightarrow>
            fst (load_to_bronze e fr df (int b) s) = Inr ()
          \<and> calls (snd (load_to_bronze e fr df (int b) s))
              = calls s @ Truncate # map (insert_of fr) (batches df b) @ [Commit]
          \<and> table (snd (load_to_bronze e fr df (int b) s))
              = map (value_tuple fr) (iterrows df)"
  proof
    assume "db_raises e = (\<lambda>k. None)"
    then have ok: "\<forall>k. db_raises e k = None" by simp
    from load_to_bronze_ok [OF ok assms(2), of fr df s] t
    show "fst (load_to_bronze e fr df (int b) s) = Inr ()
          \<and> calls (snd (load_to_bronze e fr df (int b) s))
              = calls s @ Truncate # map (insert_of fr) (batches df b) @ [Commit]
          \<and> table (snd (load_to_bronze e fr df (int b) s))
              = map (value_tuple fr) (iterrows df)"
      by auto
  qed
  from c batches_sizes [OF assms(2)] batches_full [OF assms(2)] l
  show ?thesis by blast
qed

theorem batches_partition_witness:
  "wf_df (clean_data sales_frame) \<and> (0::nat) < 2
   \<and> db_raises (quiet_env sales_frame) = (\<lambda>k. None)
   \<and> concat (map iterrows (batches (clean_data sales_frame) 2)) = iterrows (clean_data sales_frame)
   \<and> map nrows (batches (clean_data sales_frame) 2) = [2, 1]
   \<and> fst (load_to_bronze (quiet_env sales_frame) no_floats (clean_data sales_frame) (int 2) fresh_session)
       = Inr ()
   \<and> calls (snd (load_to_bronze (quiet_env sales_frame) no_floats (clean_data sales_frame) (int 2)
        fresh_session))
       = calls fresh_session
         @ Truncate # map (insert_of no_floats) (batches (clean_data sales_frame) 2) @ [Commit]
   \<and> length (table (snd (load_to_bronze (quiet_env sales_frame) no_floats (clean_data sales_frame)
        (int 2) fresh_session))) = 3"
proof -
  have w: "wf_df (clean_data sales_frame)" by code_simp
  have b: "(0::nat) < 2" by simp
  have q: "db_raises (quiet_env sales_frame) = (\<lambda>k. None)"
    by (simp add: quiet_env_def)
  have n: "map nrows (batches (clean_data sales_frame) 2) = [2, 1]" by code_simp
  have r: "length (iterrows (clean_data sales_frame)) = 3" by code_simp
  from batches_partition [OF w b, of "quiet_env sales_frame" no_floats fresh_session] w q n r
  show ?thesis by simp
qed

text \<open>
  C2. For a frame with distinct column labels and \<open>nrows\<close> values in every column,
  \<open>clean_data\<close> keeps the number of rows, and the rows of the result are the rows of
  the input in the same order, each cleaned value by value: the \<open>i\<close>-th row of the
  result is \<open>clean_row\<close> of the \<open>i\<close>-th row of the input.
\<close>

theorem clean_data_rows:
  assumes "distinct (columns df)" and "wf_df df"
  shows "nrows (clean_data df) = nrows df
       \<and> length (iterrows (clean_data df)) = length (iterrows df)
       \<and> iterrows (clean_data df) = map (clean_row (map sdtype (cols df))) (iterrows df)"
  using row_at_clean [OF assms(2)]
  by (simp add: clean_data_cols [OF assms(1)] iterrows_def)

theorem clean_data_rows_witness:
  "distinct (columns sales_frame) \<and> wf_df sales_frame
   \<and> nrows (clean_data sales_frame) = nrows sales_frame
   \<and> length (iterrows (clean_data sales_frame)) = length (iterrows sales_frame)
   \<and> iterrows (clean_data sales_frame)
       = map (clean_row (map sdtype (cols sales_frame))) (iterrows sales_frame)
   \<and> iterrows (clean_data sales_frame)
       = [[(''Serial Number'', PInt 2020348), (''Town'', PStr ''Hartford''), (''Sale Amount'', PInt 325000)],
          [(''Serial Number'', PInt 20002), (''Town'', PNone), (''Sale Amount'', PInt 0)],
          [(''Serial Number'', PInt 210317), (''Town'', PStr []), (''Sale Amount'', PInt 430000)]]"
proof -
  have d: "distinct (columns sales_frame)"
    by (simp add: sales_frame_def columns_def)
  have w: "wf_df sales_frame"
    by (simp add: sales_frame_def wf_df_def)
  have rows: "iterrows (clean_data sales_frame)
       = [[(''Serial Number'', PInt 2020348), (''Town'', PStr ''Hartford''), (''Sale Amount'', PInt 325000)],
          [(''Serial Number'', PInt 20002), (''Town'', PNone), (''Sale Amount'', PInt 0)],
          [(''Serial Number'', PInt 210317), (''Town'', PStr []), (''Sale Amount'', PInt 430000)]]"
    by code_simp
  from clean_data_rows [OF d w] d w rows show ?thesis by simp
qed




text \<open>
  C4. The code at a row whose sale amount is the integer 0: the field is present and
  its text is \<open>''0''\<close>, but \<^verbatim>\<open>0 or ''\<close> is the empty string, so the tuple holds the
  empty string for it.
\<close>

theorem zero_sale_amount_loaded_empty:
  "row_get (iterrows (clean_data sales_frame) ! 1) ''Sale Amount'' (PStr []) = PInt 0
   \<and> py_str float_repr (PInt 0) = ''0''
   \<and> field_text float_repr (iterrows (clean_data sales_frame) ! 1) ''Sale Amount'' = []
   \<and> value_tuple float_repr (iterrows (clean_data sales_frame) ! 1)
       = [''20002'', [], [], [], [], [], [], [], [], [], [], [], [], []]"
  by (simp add: cleaned_sales_rows field_text_def value_tuple_def csv_fields_def row_get_def
        py_or_def str_int_0 str_int_20002)

text \<open>A NaN that reaches the load stage is a true value, and is sent as the text \<open>''nan''\<close>.\<close>

theorem nan_loaded_as_text:
  "field_text float_repr [(''Sales Ratio'', PNaN)] ''Sales Ratio'' = ''nan''"
  by (simp add: field_text_def row_get_def py_or_def)

text \<open>
  C5. The code at the limit 0 on a source of three records: \<^verbatim>\<open>if limit:\<close> is false
  for 0, the frame is not cut, and all three records are returned.
\<close>

theorem download_limit_zero_returns_all:
  "fst (download_data (quiet_env sales_frame) (Some 0) s) = Inr sales_frame
   \<and> nrows sales_frame = 3"
  by (simp add: download_data_def quiet_env_def Let_def sales_frame_def)

text \<open>For a limit above 0 the stage returns the first \<open>n\<close> rows, and without a limit all rows.\<close>

lemma head_iloc: "0 \<le> n \<Longrightarrow> head df n = iloc df 0 (nat n)"
  by (simp add: head_def iloc_def Let_def)

lemma download_data_limit:
  assumes "http_response e = Inr df0" and "0 < n"
  shows "fst (download_data e (Some n) s) = Inr (head df0 n)
       \<and> nrows (head df0 n) = min (nat n) (nrows df0)
       \<and> (wf_df df0 \<longrightarrow> iterrows (head df0 n) = take (nat n) (iterrows df0))"
  using assms iloc_rows [of df0 0 "nat n"]
  by (simp add: download_data_def Let_def head_iloc nrows_iloc)

lemma download_data_no_limit:
  assumes "http_response e = Inr df0"
  shows "fst (download_data e None s) = Inr df0"
  using assms by (simp add: download_data_def Let_def)

text \<open>
  C6. Whatever the environment does, \<open>run_pipeline\<close> returns with the cursor and the
  connection closed, and its result is the result of the four stages: a failure of a
  stage is returned to the caller. On a failure the last four log records are the
  failure banner, at level ERROR, with the error. When the download fails, no call
  reaches the warehouse.
\<close>

theorem run_pipeline_releases:
  "cursor_closed (snd (run_pipeline e fr limit s))
   \<and> conn_closed (snd (run_pipeline e fr limit s))
   \<and> fst (run_pipeline e fr limit s) = fst (pipeline_body e fr limit s)
   \<and> (\<forall>x. fst (pipeline_body e fr limit s) = Inl x \<longrightarrow>
        fst (run_pipeline e fr limit s) = Inl x
      \<and> log (snd (run_pipeline e fr limit s))
          = log (snd (pipeline_body e fr limit s)) @ map (Pair ERROR) (failure_banner x))
   \<and> (\<forall>x. http_response e = Inl x \<longrightarrow>
        fst (run_pipeline e fr limit s) = Inl x
      \<and> calls (snd (run_pipeline e fr limit s)) = calls s
      \<and> table (snd (run_pipeline e fr limit s)) = table s)"
proof -
  obtain r s1 where b: "pipeline_body e fr limit s = (r, s1)"
    by (cases "pipeline_body e fr limit s")
  have closed: "cursor_closed (snd (run_pipeline e fr limit s))
      \<and> conn_closed (snd (run_pipeline e fr limit s))
      \<and> fst (run_pipeline e fr limit s) = r"
    by (simp add: run_pipeline_def b Let_def)
  have banner: "\<And>x. r = Inl x \<Longrightarrow>
      log (snd (run_pipeline e fr limit s)) = log s1 @ map (Pair ERROR) (failure_banner x)"
    by (simp add: run_pipeline_def b Let_def logger_def)
  have dl: "\<And>x. http_response e = Inl x \<Longrightarrow> r = Inl x \<and> calls s1 = calls s \<and> table s1 = table s"
    using b by (auto simp: pipeline_body_def download_data_def Let_def logger_def)
  have keep: "calls (snd (run_pipeline e fr limit s)) = calls s1
      \<and> table (snd (run_pipeline e fr limit s)) = table s1"
    by (simp add: run_pipeline_def b Let_def logger_def split: sum.splits)
  from closed banner dl keep b show ?thesis by simp
qed

theorem run_pipeline_releases_witness:
  "http_response offline_env = Inl RequestException
   \<and> fst (pipeline_body offline_env no_floats (Some 10000) fresh_session) = Inl RequestException
   \<and> fst (run_pipeline offline_env no_floats (Some 10000) fresh_session) = Inl RequestException
   \<and> cursor_closed (snd (run_pipeline offline_env no_floats (Some 10000) fresh_session))
   \<and> conn_closed (snd (run_pipeline offline_env no_floats (Some 10000) fresh_session))
   \<and> calls (snd (run_pipeline offline_env no_floats (Some 10000) fresh_session)) = []
   \<and> log (snd (run_pipeline offline_env no_floats (Some 10000) fresh_session))
       = log (snd (pipeline_body offline_env no_floats (Some 10000) fresh_session))
         @ [(ERROR, Rule), (ERROR, PipelineFailed), (ERROR, ErrorLine RequestException), (ERROR, Rule)]"
proof -
  have h: "http_response offline_env = Inl RequestException"
    by (simp add: offline_env_def)
  have b: "fst (pipeline_body offline_env no_floats (Some 10000) fresh_session) = Inl RequestException"
    by (simp add: pipeline_body_def download_data_def offline_env_def Let_def)
  have c: "calls fresh_session = []"
    by (simp add: fresh_session_def)
  from run_pipeline_releases [of offline_env no_floats "Some 10000" fresh_session] h b c
  show ?thesis by (simp add: failure_banner_def)
qed

text \<open>
  A run whose first warehouse call, the truncate, is rejected: the error comes back to
  the caller, nothing follows the truncate, and both are closed.
\<close>

lemma run_pipeline_rejected:
  "fst (run_pipeline rejecting_env no_floats None fresh_session) = Inl DatabaseError
   \<and> cursor_closed (snd (run_pipeline rejecting_env no_floats None fresh_session))
   \<and> conn_closed (snd (run_pipeline rejecting_env no_floats None fresh_session))
   \<and> calls (snd (run_pipeline rejecting_env no_floats None fresh_session)) = [Truncate]"
  by (simp add: run_pipeline_def pipeline_body_def download_data_def clean_data_logged_def
        load_to_bronze_def db_exec_def logger_def rejecting_env_def fresh_session_def Let_def)

text \<open>
  C7. When one of the five required values is not set, the script exits with status 1
  and never calls \<^verbatim>\<open>connect\<close>; it prints one line with the missing names joined by
  commas, and every unset required name is among them. When the password is the only
  one not set, that line is the password's name alone.
\<close>

theorem test_connection_missing:
  assumes "\<exists>v \<in> set required_vars. environ v = None"
  shows "exit_status (test_connection environ out) = Some 1
       \<and> connects (test_connection environ out) = []
       \<and> printed (test_connection environ out)
           = Title # map (var_line environ) required_vars
             @ [MissingHeader, MissingNames (join '', '' (missing environ)), FixHint]
       \<and> (\<forall>v \<in> set required_vars. environ v = None \<longrightarrow> v \<in> set (missing environ))
       \<and> set (missing environ) \<subseteq> set required_vars
       \<and> ((\<forall>v \<in> set required_vars. v \<noteq> ''SNOWFLAKE_PASSWORD'' \<longrightarrow> truthy (getenv environ v))
            \<and> environ ''SNOWFLAKE_PASSWORD'' = None \<longrightarrow>
          missing environ = [''SNOWFLAKE_PASSWORD''])"
proof -
  have abs: "\<forall>v \<in> set required_vars. environ v = None \<longrightarrow> v \<in> set (missing environ)"
    by (simp add: missing_mem getenv_falsy)
  with assms have ne: "missing environ \<noteq> []" by fastforce
  have sub: "set (missing environ) \<subseteq> set required_vars"
    by (auto simp: missing_mem)
  have pw: "(\<forall>v \<in> set required_vars. v \<noteq> ''SNOWFLAKE_PASSWORD'' \<longrightarrow> truthy (getenv environ v))
            \<and> environ ''SNOWFLAKE_PASSWORD'' = None \<longrightarrow>
          missing environ = [''SNOWFLAKE_PASSWORD'']"
    by (simp add: missing_def required_vars_def getenv_def)
  from abs sub pw show ?thesis
    by (simp add: test_connection_exit [OF ne])
qed

theorem test_connection_missing_witness:
  "(\<exists>v \<in> set required_vars. no_password v = None)
   \<and> exit_status (test_connection no_password (Inl DatabaseError)) = Some 1
   \<and> connects (test_connection no_password (Inl DatabaseError)) = []
   \<and> missing no_password = [''SNOWFLAKE_PASSWORD'']
   \<and> printed (test_connection no_password (Inl DatabaseError))
       = [Title,
          VarLine ''SNOWFLAKE_ACCOUNT'' ''acme-xy12345'',
          VarLine ''SNOWFLAKE_USER'' ''etl'',
          VarLine ''SNOWFLAKE_PASSWORD'' ''NOT SET'',
          VarLine ''SNOWFLAKE_WAREHOUSE'' ''COMPUTE_WH'',
          VarLine ''SNOWFLAKE_DATABASE'' ''CT_REAL_ESTATE'',
          MissingHeader, MissingNames ''SNOWFLAKE_PASSWORD'', FixHint]"
proof -
  have h: "\<exists>v \<in> set required_vars. no_password v = None"
    by (simp add: required_vars_def no_password_def)
  have m: "missing no_password = [''SNOWFLAKE_PASSWORD'']"
    by (simp add: missing_def required_vars_def getenv_def no_password_def)
  have v: "map (var_line no_password) required_vars
        = [VarLine ''SNOWFLAKE_ACCOUNT'' ''acme-xy12345'',
          VarLine ''SNOWFLAKE_USER'' ''etl'',
          VarLine ''SNOWFLAKE_PASSWORD'' ''NOT SET'',
          VarLine ''SNOWFLAKE_WAREHOUSE'' ''COMPUTE_WH'',
          VarLine ''SNOWFLAKE_DATABASE'' ''CT_REAL_ESTATE'']"
    by (simp add: required_vars_def var_line_def getenv_def no_password_def)
  from test_connection_missing [OF h, of "Inl DatabaseError"] h m v
  show ?thesis by simp
qed

text \<open>
  C8. For a frame with distinct column labels, cleaning a cleaned frame changes nothing.
\<close>

theorem clean_data_idempotent:
  assumes "distinct (columns df)"
  shows "clean_data (clean_data df) = clean_data df"
proof -
  have d: "distinct (columns (clean_data df))"
    using assms by (simp add: columns_clean_data)
  show ?thesis
    by (simp add: clean_data_cols [OF d]) (simp add: clean_data_cols [OF assms] clean_column_idem)
qed

theorem clean_data_idempotent_witness:
  "distinct (columns sales_frame) \<and> clean_data (clean_data sales_frame) = clean_data sales_frame"
  using clean_data_idempotent [of sales_frame]
  by (simp add: sales_frame_def columns_def)

text \<open>
  C9. For a frame of zero rows and a batch size other than 0, when the warehouse
  accepts the two calls, \<open>load_to_bronze\<close> returns normally after exactly a truncate and
  a commit, with no insert between them; the table is empty and the count logged is 0.
\<close>

theorem load_empty_dataset:
  assumes "nrows df = 0" and "batch_size \<noteq> 0"
    and "db_raises e (length (calls s)) = None"
    and "db_raises e (Suc (length (calls s))) = None"
  shows "fst (load_to_bronze e fr df batch_size s) = Inr ()
       \<and> calls (snd (load_to_bronze e fr df batch_size s)) = calls s @ [Truncate, Commit]
       \<and> table (snd (load_to_bronze e fr df batch_size s)) = []
       \<and> log (snd (load_to_bronze e fr df batch_size s))
           = log s @ [(INFO, Rule), (INFO, Step3), (INFO, Clearing), (INFO, Loaded 0)]"
  using assms
  by (simp add: load_to_bronze_def Let_def db_exec_def logger_def py_range_done)

theorem load_empty_dataset_witness:
  "nrows (head sales_frame 0) = 0 \<and> (5000::int) \<noteq> 0
   \<and> db_raises (quiet_env sales_frame) (length (calls fresh_session)) = None
   \<and> db_raises (quiet_env sales_frame) (Suc (length (calls fresh_session))) = None
   \<and> fst (load_to_bronze (quiet_env sales_frame) no_floats (head sales_frame 0) 5000 fresh_session)
       = Inr ()
   \<and> calls (snd (load_to_bronze (quiet_env sales_frame) no_floats (head sales_frame 0) 5000
        fresh_session)) = [Truncate, Commit]
   \<and> table (snd (load_to_bronze (quiet_env sales_frame) no_floats (head sales_frame 0) 5000
        fresh_session)) = []"
proof -
  have a: "nrows (head sales_frame 0) = 0"
    by (simp add: head_def sales_frame_def)
  have b: "(5000::int) \<noteq> 0" by simp
  have c: "db_raises (quiet_env sales_frame) (length (calls fresh_session)) = None"
    by (simp add: quiet_env_def)
  have d: "db_raises (quiet_env sales_frame) (Suc (length (calls fresh_session))) = None"
    by (simp add: quiet_env_def)
  have e: "calls fresh_session = []"
    by (simp add: fresh_session_def)
  from load_empty_dataset [OF a b c d, of no_floats] a c d e
  show ?thesis by simp
qed

text \<open>
  C10. A required value set to the empty string is missing just as an unset one is:
  the list of missing names is the same with the value empty and with it unset, and
  in both cases the script prints the line of those names, joined by commas, after the
  lines of the values, and exits with status 1 without calling \<^verbatim>\<open>connect\<close>.
\<close>

theorem empty_value_is_missing:
  assumes "v \<in> set required_vars" and "environ v = Some []"
  shows "v \<in> set (missing environ)
       \<and> v \<in> set (missing (environ(v := None)))
       \<and> missing (environ(v := None)) = missing environ
       \<and> exit_status (test_connection environ out) = Some 1
       \<and> connects (test_connection environ out) = []
       \<and> exit_status (test_connection (environ(v := None)) out) = Some 1
       \<and> connects (test_connection (environ(v := None)) out) = []
       \<and> printed (test_connection environ out)
           = Title # map (var_line environ) required_vars
             @ [MissingHeader, MissingNames (join '', '' (missing environ)), FixHint]
       \<and> printed (test_connection (environ(v := None)) out)
           = Title # map (var_line (environ(v := None))) required_vars
             @ [MissingHeader, MissingNames (join '', '' (missing environ)), FixHint]
       \<and> MissingNames (join '', '' (missing environ)) \<in> set (printed (test_connection environ out))
       \<and> MissingNames (join '', '' (missing environ))
           \<in> set (printed (test_connection (environ(v := None)) out))"
proof -
  have m1: "v \<in> set (missing environ)"
    using assms by (simp add: missing_mem getenv_falsy)
  have m2: "v \<in> set (missing (environ(v := None)))"
    using assms by (simp add: missing_mem getenv_falsy)
  have "\<And>w. truthy (getenv (environ(v := None)) w) = truthy (getenv environ w)"
    using assms(2) by (simp add: getenv_def)
  then have eq: "missing (environ(v := None)) = missing environ"
    by (simp add: missing_def)
  from m1 have ne1: "missing environ \<noteq> []" by auto
  from m2 have ne2: "missing (environ(v := None)) \<noteq> []" by auto
  have r1: "test_connection environ out
      = \<lparr>printed = Title # map (var_line environ) required_vars
                   @ [MissingHeader, MissingNames (join '', '' (missing environ)), FixHint],
         connects = [], exit_status = Some 1\<rparr>"
    by (rule test_connection_exit [OF ne1])
  have r2: "test_connection (environ(v := None)) out
      = \<lparr>printed = Title # map (var_line (environ(v := None))) required_vars
                   @ [MissingHeader, MissingNames (join '', '' (missing environ)), FixHint],
         connects = [], exit_status = Some 1\<rparr>"
    using test_connection_exit [OF ne2, of out] by (simp only: eq)
  from m1 m2 eq show ?thesis
    unfolding r1 r2 by simp
qed

theorem empty_value_is_missing_witness:
  "''SNOWFLAKE_PASSWORD'' \<in> set required_vars
   \<and> empty_password ''SNOWFLAKE_PASSWORD'' = Some []
   \<and> missing empty_password = [''SNOWFLAKE_PASSWORD'']
   \<and> missing (empty_password(''SNOWFLAKE_PASSWORD'' := None)) = missing empty_password
   \<and> exit_status (test_connection empty_password (Inr (''9.1.0'', ''CT_REAL_ESTATE'', ''ETL''))) = Some 1
   \<and> connects (test_connection empty_password (Inr (''9.1.0'', ''CT_REAL_ESTATE'', ''ETL''))) = []
   \<and> printed (test_connection empty_password (Inr (''9.1.0'', ''CT_REAL_ESTATE'', ''ETL'')))
       = [Title,
          VarLine ''SNOWFLAKE_ACCOUNT'' ''acme-xy12345'',
          VarLine ''SNOWFLAKE_USER'' ''etl'',
          VarLine ''SNOWFLAKE_PASSWORD'' ''NOT SET'',
          VarLine ''SNOWFLAKE_WAREHOUSE'' ''COMPUTE_WH'',
          VarLine ''SNOWFLAKE_DATABASE'' ''CT_REAL_ESTATE'',
          MissingHeader, MissingNames ''SNOWFLAKE_PASSWORD'', FixHint]
   \<and> printed (test_connection (empty_password(''SNOWFLAKE_PASSWORD'' := None))
        (Inr (''9.1.0'', ''CT_REAL_ESTATE'', ''ETL'')))
       = [Title,
          VarLine ''SNOWFLAKE_ACCOUNT'' ''acme-xy12345'',
          VarLine ''SNOWFLAKE_USER'' ''etl'',
          VarLine ''SNOWFLAKE_PASSWORD'' ''NOT SET'',
          VarLine ''SNOWFLAKE_WAREHOUSE'' ''COMPUTE_WH'',
          VarLine ''SNOWFLAKE_DATABASE'' ''CT_REAL_ESTATE'',
          MissingHeader, MissingNames ''SNOWFLAKE_PASSWORD'', FixHint]"
proof -
  have a: "''SNOWFLAKE_PASSWORD'' \<in> set required_vars"
    by (simp add: required_vars_def)
  have b: "empty_password ''SNOWFLAKE_PASSWORD'' = Some []"
    by (simp add: empty_password_def)
  have m: "missing empty_password = [''SNOWFLAKE_PASSWORD'']"
    by (simp add: missing_def required_vars_def getenv_def empty_password_def no_password_def)
  have v1: "map (var_line empty_password) required_vars
        = [VarLine ''SNOWFLAKE_ACCOUNT'' ''acme-xy12345'',
           VarLine ''SNOWFLAKE_USER'' ''etl'',
           VarLine ''SNOWFLAKE_PASSWORD'' ''NOT SET'',
           VarLine ''SNOWFLAKE_WAREHOUSE'' ''COMPUTE_WH'',
           VarLine ''SNOWFLAKE_DATABASE'' ''CT_REAL_ESTATE'']"
    by (simp add: required_vars_def var_line_def getenv_def empty_password_def no_password_def)
  have v2: "map (var_line (empty_password(''SNOWFLAKE_PASSWORD'' := None))) required_vars
        = [VarLine ''SNOWFLAKE_ACCOUNT'' ''acme-xy12345'',
           VarLine ''SNOWFLAKE_USER'' ''etl'',
           VarLine ''SNOWFLAKE_PASSWORD'' ''NOT SET'',
           VarLine ''SNOWFLAKE_WAREHOUSE'' ''COMPUTE_WH'',
           VarLine ''SNOWFLAKE_DATABASE'' ''CT_REAL_ESTATE'']"
    by (simp add: required_vars_def var_line_def getenv_def empty_password_def no_password_def)
  from empty_value_is_missing
         [of "''SNOWFLAKE_PASSWORD''" empty_password "Inr (''9.1.0'', ''CT_REAL_ESTATE'', ''ETL'')", OF a b]
       a b m v1 v2
  show ?thesis by simp
qed

end
